theory Spec2Isabelle
  imports Main "HOL-Library.Code_Target_Nat"
begin

section \<open>Values and the store\<close>

text \<open>
  The functions that are values: the two generic methods of \<open>Array.prototype\<close> that the
  instructions call, \<open>push\<close> and \<open>unshift\<close>. Every array inherits them, and any object
  may hold one as a property.
\<close>

datatype jsfn = ArrayProtoPush | ArrayProtoUnshift

text \<open>
  A JavaScript value is a primitive, a function or a reference to an object of the store.
  Numbers are the integer-valued ones. Two values are identical by reference (\<open>===\<close>)
  exactly when they are equal as \<open>jsval\<close>: two references are identical when they hold the
  same address.
\<close>

datatype jsval = Undefined | Null | Bool bool | Num int | Str string | Ref nat | Fn jsfn

text \<open>
  The store holds arrays and plain objects. A plain object is its list of own properties,
  in insertion order, each key at most once.
\<close>

datatype jsobj = Arr "jsval list" | Obj "(string \<times> jsval) list"

text \<open>
  The store is the list of the objects allocated so far: the address of an object is its
  position, and an allocation appends.
\<close>

type_synonym heap = "jsobj list"

text \<open>
  What the code throws. \<open>MalformedProgramError\<close> is the \<open>Error\<close> that
  \<open>parseIntoPrograms\<close> throws ("Bidoof received an instruction before receiving a
  matcher ..."); \<open>TypeError\<close> is the error of the JavaScript runtime for a call of
  something that is not a function, such as \<open>input.push\<close> on a value without \<open>push\<close>;
  \<open>Thrown\<close> is whatever a callback of the caller throws. \<open>NotModelled\<close> is not
  an error of the program: the run has left the part of JavaScript that the store describes
  (an array with a property that is not an index), and nothing is said about it.
\<close>

datatype error = MalformedProgramError | TypeError | Thrown jsval | NotModelled

section \<open>Instructions (instruction.ts)\<close>

text \<open>
  An instruction carries one function, its \<open>modifier\<close>. The modifier receives the target
  and the store; it throws, or returns a value and the store it leaves behind.
\<close>

type_synonym modifier_fn = "jsval \<Rightarrow> heap \<Rightarrow> error + (jsval \<times> heap)"

record Instruction =
  modifier :: modifier_fn

definition makeInstruction :: "modifier_fn \<Rightarrow> Instruction" where
  "makeInstruction f = \<lparr>modifier = f\<rparr>"

text \<open>
  The elements of a program description: \<open>isInstruction\<close> tells the objects made by
  \<open>makeInstruction\<close> (they carry the private symbol) from everything else, which is a
  description of a matcher.
\<close>

datatype 'd token = Description 'd | Instr Instruction

fun isInstruction :: "'d token \<Rightarrow> bool" where
  "isInstruction (Instr i) = True"
| "isInstruction (Description d) = False"

section \<open>Programs and the parser (program.ts)\<close>

text \<open>
  The matcher of a program is a type definition of the library serializable-types, which
  is not part of the repository. A type definition is modelled by the test
  \<open>t.isOfType\<close> performs with it: a predicate on a value and the store, which changes
  neither. The coercion \<open>t.coerceToType\<close> of a description is a parameter of the parser.
\<close>

type_synonym TypeDef = "jsval \<Rightarrow> heap \<Rightarrow> bool"

record Program =
  matcher :: TypeDef
  instructions :: "Instruction list"

definition newProgram :: "('d \<Rightarrow> TypeDef) \<Rightarrow> 'd \<Rightarrow> Program" where
  "newProgram coerceToType d = \<lparr>matcher = coerceToType d, instructions = []\<rparr>"

definition matches :: "Program \<Rightarrow> jsval \<Rightarrow> heap \<Rightarrow> bool" where
  "matches p input h = matcher p input h"

text \<open>
  The loop of \<open>parseIntoPrograms\<close>: \<open>programs\<close> are the sealed programs, \<open>currentProgram\<close>
  the open one (\<open>None\<close> for \<open>null\<close>).
\<close>

fun parseLoop ::
  "('d \<Rightarrow> TypeDef) \<Rightarrow> 'd token list \<Rightarrow> Program list \<Rightarrow> Program option
    \<Rightarrow> error + Program list" where
  "parseLoop c [] programs currentProgram =
     (case currentProgram of
        None \<Rightarrow> Inr programs
      | Some p \<Rightarrow> Inr (programs @ [p]))"
| "parseLoop c (Instr i # items) programs currentProgram =
     (case currentProgram of
        None \<Rightarrow> Inl MalformedProgramError
      | Some p \<Rightarrow>
          parseLoop c items programs (Some (p\<lparr>instructions := instructions p @ [i]\<rparr>)))"
| "parseLoop c (Description d # items) programs currentProgram =
     (case currentProgram of
        None \<Rightarrow> parseLoop c items programs (Some (newProgram c d))
      | Some p \<Rightarrow> parseLoop c items (programs @ [p]) (Some (newProgram c d)))"

definition parseIntoPrograms ::
  "('d \<Rightarrow> TypeDef) \<Rightarrow> 'd token list \<Rightarrow> error + Program list" where
  "parseIntoPrograms c matchersAndInstructions = parseLoop c matchersAndInstructions [] None"

section \<open>Running programs (run-program.ts)\<close>

record RunResult =
  matched :: bool
  "output" :: jsval

text \<open>
  The loop of \<open>runProgram\<close> over the instructions that are left, with the variables
  \<open>matched\<close> and \<open>currentTarget\<close>. An instruction that throws ends the run.
\<close>

fun runProgramLoop ::
  "Program \<Rightarrow> Instruction list \<Rightarrow> bool \<Rightarrow> jsval \<Rightarrow> heap \<Rightarrow> error + (RunResult \<times> heap)" where
  "runProgramLoop p [] m currentTarget h = Inr (\<lparr>matched = m, output = currentTarget\<rparr>, h)"
| "runProgramLoop p (i # is) m currentTarget h =
     (if matches p currentTarget h then
        (case modifier i currentTarget h of
           Inl e \<Rightarrow> Inl e
         | Inr (t, h') \<Rightarrow> runProgramLoop p is True t h')
      else runProgramLoop p is m currentTarget h)"

definition runProgram :: "Program \<Rightarrow> jsval \<Rightarrow> heap \<Rightarrow> error + (RunResult \<times> heap)" where
  "runProgram p input h = runProgramLoop p (instructions p) False input h"

record Options =
  stopAfterFirstMatch :: bool

fun runProgramsLoop ::
  "Program list \<Rightarrow> Options \<Rightarrow> jsval \<Rightarrow> heap \<Rightarrow> error + (jsval \<times> heap)" where
  "runProgramsLoop [] options currentTarget h = Inr (currentTarget, h)"
| "runProgramsLoop (p # ps) options currentTarget h =
     (case runProgram p currentTarget h of
        Inl e \<Rightarrow> Inl e
      | Inr (r, h') \<Rightarrow>
          if matched r \<and> stopAfterFirstMatch options then Inr (output r, h')
          else runProgramsLoop ps options (output r) h')"

definition runPrograms ::
  "Program list \<Rightarrow> Options \<Rightarrow> jsval \<Rightarrow> heap \<Rightarrow> error + (jsval \<times> heap)" where
  "runPrograms programs options input h = runProgramsLoop programs options input h"


section \<open>The entry point (index.ts)\<close>

definition defaultOptions :: Options where
  "defaultOptions = \<lparr>stopAfterFirstMatch = False\<rparr>"

text \<open>
  \<open>makeBidoof\<close> parses the description first, and returns the function that runs the
  programs: a description that does not parse gives no function at all.
\<close>

definition makeBidoof ::
  "('d \<Rightarrow> TypeDef) \<Rightarrow> 'd token list \<Rightarrow> Options \<Rightarrow> error + modifier_fn" where
  "makeBidoof c programDescription options =
     (case parseIntoPrograms c programDescription of
        Inl e \<Rightarrow> Inl e
      | Inr programs \<Rightarrow> Inr (\<lambda>input h. runPrograms programs options input h))"


section \<open>Reading and writing the store\<close>

text \<open>
  The object a value refers to: \<open>None\<close> for a primitive (and for an address outside the
  store, which no value of a JavaScript program has).
\<close>

definition deref :: "heap \<Rightarrow> jsval \<Rightarrow> jsobj option" where
  "deref h v = (case v of Ref a \<Rightarrow> (if a < length h then Some (h ! a) else None) | _ \<Rightarrow> None)"

definition alloc :: "jsobj \<Rightarrow> heap \<Rightarrow> jsval \<times> heap" where
  "alloc ob h = (Ref (length h), h @ [ob])"

text \<open>
  lodash's \<open>isObject\<close> holds of the objects and of the functions; immer drafts the arrays
  and the plain objects only.
\<close>

definition isObject :: "jsval \<Rightarrow> bool" where
  "isObject v = (case v of Ref a \<Rightarrow> True | Fn f \<Rightarrow> True | _ \<Rightarrow> False)"

definition isDraftable :: "jsval \<Rightarrow> bool" where
  "isDraftable v = (case v of Ref a \<Rightarrow> True | _ \<Rightarrow> False)"


text \<open>
  A property key that is an array index: \<open>0\<close>, or decimal digits that do not start
  with \<open>0\<close> (lodash's \<open>isIndex\<close> on a string; a number in a path is its decimal string).
\<close>

definition digit :: "char \<Rightarrow> nat option" where
  "digit c = map_of (zip ''0123456789'' [0 ..< 10]) c"

fun digits :: "string \<Rightarrow> nat \<Rightarrow> nat option" where
  "digits [] acc = Some acc"
| "digits (c # cs) acc = (case digit c of None \<Rightarrow> None | Some d \<Rightarrow> digits cs (10 * acc + d))"

definition parseIndex :: "string \<Rightarrow> nat option" where
  "parseIndex k =
     (if k = [] then None
      else if hd k = CHR ''0'' \<and> tl k \<noteq> [] then None
      else digits k 0)"

text \<open>
  \<open>object[key]\<close> for an own data property: an element of an array, a property of a plain
  object. What a prototype gives (\<open>length\<close>, the methods), the characters of a string
  and the properties of a function are not values of the model: such a read gives
  \<open>undefined\<close> here.
\<close>

definition getProp :: "heap \<Rightarrow> jsval \<Rightarrow> string \<Rightarrow> jsval" where
  "getProp h object k =
     (case deref h object of
        Some (Obj kvs) \<Rightarrow> (case map_of kvs k of Some v \<Rightarrow> v | None \<Rightarrow> Undefined)
      | Some (Arr xs) \<Rightarrow>
          (case parseIndex k of
             Some i \<Rightarrow> (if i < length xs then xs ! i else Undefined)
           | None \<Rightarrow> Undefined)
      | None \<Rightarrow> Undefined)"

definition hasOwn :: "heap \<Rightarrow> jsval \<Rightarrow> string \<Rightarrow> bool" where
  "hasOwn h object k =
     (case deref h object of
        Some (Obj kvs) \<Rightarrow> (case map_of kvs k of Some v \<Rightarrow> True | None \<Rightarrow> False)
      | Some (Arr xs) \<Rightarrow> (case parseIndex k of Some i \<Rightarrow> i < length xs | None \<Rightarrow> False)
      | None \<Rightarrow> False)"

text \<open>A property of a plain object keeps its place when it is overwritten; a new one is last.\<close>

fun updateKey :: "(string \<times> jsval) list \<Rightarrow> string \<Rightarrow> jsval \<Rightarrow> (string \<times> jsval) list" where
  "updateKey [] k v = [(k, v)]"
| "updateKey ((k', v') # kvs) k v =
     (if k' = k then (k, v) # kvs else (k', v') # updateKey kvs k v)"

text \<open>Writing past the end of an array leaves holes, which read as \<open>undefined\<close>.\<close>

definition updateIndex :: "jsval list \<Rightarrow> nat \<Rightarrow> jsval \<Rightarrow> jsval list" where
  "updateIndex xs i v =
     (if i < length xs then xs[i := v]
      else xs @ replicate (i - length xs) Undefined @ [v])"

text \<open>
  \<open>object[key] = value\<close> on a reference. An array with a property that is not an index is
  not an object of the model, and neither is a function with properties: the write is
  reported as \<open>NotModelled\<close>.
\<close>

definition setProp :: "jsval \<Rightarrow> string \<Rightarrow> jsval \<Rightarrow> heap \<Rightarrow> error + heap" where
  "setProp object k v h =
     (case object of
        Ref a \<Rightarrow>
          (case deref h object of
             Some (Obj kvs) \<Rightarrow> Inr (h[a := Obj (updateKey kvs k v)])
           | Some (Arr xs) \<Rightarrow>
               (case parseIndex k of
                  Some i \<Rightarrow> Inr (h[a := Arr (updateIndex xs i v)])
                | None \<Rightarrow> Inl NotModelled)
           | None \<Rightarrow> Inl NotModelled)
      | _ \<Rightarrow> Inl NotModelled)"

text \<open>
  \<open>delete input[propertyName]\<close>, in the strict mode of a module. On \<open>undefined\<close> and
  \<open>null\<close> it throws; it removes a property of a plain object, and leaves a hole for an
  element of an array; a character of a string and the \<open>length\<close> of a string or of an
  array cannot be deleted, and it throws; on anything else it does nothing.
\<close>

definition deleteProp :: "jsval \<Rightarrow> string \<Rightarrow> heap \<Rightarrow> error + heap" where
  "deleteProp input k h =
     (case input of
        Undefined \<Rightarrow> Inl TypeError
      | Null \<Rightarrow> Inl TypeError
      | Str s \<Rightarrow>
          (if k = ''length'' then Inl TypeError
           else (case parseIndex k of
                   Some i \<Rightarrow> (if i < length s then Inl TypeError else Inr h)
                 | None \<Rightarrow> Inr h))
      | Ref a \<Rightarrow>
          (case deref h input of
             Some (Obj kvs) \<Rightarrow> Inr (h[a := Obj (filter (\<lambda>(k', v). k' \<noteq> k) kvs)])
           | Some (Arr xs) \<Rightarrow>
               (if k = ''length'' then Inl TypeError
                else (case parseIndex k of
                        Some i \<Rightarrow>
                          Inr (if i < length xs then h[a := Arr (xs[i := Undefined])] else h)
                      | None \<Rightarrow> Inr h))
           | None \<Rightarrow> Inr h)
      | Fn f \<Rightarrow> Inl NotModelled
      | _ \<Rightarrow> Inr h)"

text \<open>The decimal string of a number, which is the key of an array index.\<close>

fun showNat :: "nat \<Rightarrow> string" where
  "showNat n =
     (if n < 10 then [''0123456789'' ! n]
      else showNat (n div 10) @ [''0123456789'' ! (n mod 10)])"

declare showNat.simps [simp del]

text \<open>
  \<open>ToLength\<close> of the \<open>length\<close> of an object, for the values whose conversion to a number
  is plain: \<open>undefined\<close> and \<open>null\<close> count as 0, a number is cut to the range from 0 to
  \<open>2^53 - 1\<close>.
\<close>

definition maxSafe :: nat where
  "maxSafe = 2 ^ 53 - 1"

definition toLength :: "jsval \<Rightarrow> nat option" where
  "toLength v =
     (case v of
        Undefined \<Rightarrow> Some 0
      | Null \<Rightarrow> Some 0
      | Bool b \<Rightarrow> Some (if b then 1 else 0)
      | Num n \<Rightarrow> Some (min (nat n) maxSafe)
      | _ \<Rightarrow> None)"

definition removeKey :: "(string \<times> jsval) list \<Rightarrow> string \<Rightarrow> (string \<times> jsval) list" where
  "removeKey kvs k = filter (\<lambda>(k', v). k' \<noteq> k) kvs"

text \<open>The items written at the indices from \<open>len\<close> on.\<close>

definition pushProps ::
  "(string \<times> jsval) list \<Rightarrow> nat \<Rightarrow> jsval list \<Rightarrow> (string \<times> jsval) list" where
  "pushProps kvs len items =
     foldl (\<lambda>kvs (j, x). updateKey kvs (showNat (len + j)) x) kvs (enumerate 0 items)"

text \<open>
  The loop of the generic \<open>unshift\<close> that makes room for \<open>c\<close> items: from the last index
  down, the property at \<open>k\<close> is copied to \<open>k + c\<close>, and where there is none the property at
  \<open>k + c\<close> is deleted.
\<close>

fun moveUp :: "nat \<Rightarrow> nat \<Rightarrow> (string \<times> jsval) list \<Rightarrow> (string \<times> jsval) list" where
  "moveUp 0 c kvs = kvs"
| "moveUp (Suc k) c kvs =
     moveUp k c
       (case map_of kvs (showNat k) of
          Some x \<Rightarrow> updateKey kvs (showNat (k + c)) x
        | None \<Rightarrow> removeKey kvs (showNat (k + c)))"

text \<open>
  \<open>Array.prototype.push\<close> called on \<open>this\<close>. On an array it adds the items at the end. It
  is generic: on a plain object it reads \<open>length\<close>, writes the items at the indices from
  there on, and writes the new \<open>length\<close>; past \<open>2^53 - 1\<close> it throws.
\<close>

definition arrayProtoPush :: "jsval \<Rightarrow> jsval list \<Rightarrow> heap \<Rightarrow> error + heap" where
  "arrayProtoPush this items h =
     (case this of
        Ref a \<Rightarrow>
          (case deref h this of
             Some (Arr xs) \<Rightarrow> Inr (h[a := Arr (xs @ items)])
           | Some (Obj kvs) \<Rightarrow>
               (case toLength (getProp h this ''length'') of
                  None \<Rightarrow> Inl NotModelled
                | Some len \<Rightarrow>
                    if maxSafe < len + length items then Inl TypeError
                    else Inr (h[a := Obj (updateKey (pushProps kvs len items) ''length''
                                           (Num (int (len + length items))))]))
           | None \<Rightarrow> Inl NotModelled)
      | _ \<Rightarrow> Inl NotModelled)"

text \<open>
  \<open>Array.prototype.unshift\<close> called on \<open>this\<close>. On an array it adds the items at the
  start. On a plain object it reads \<open>length\<close>, moves the properties at the indices up by
  the number of items, writes the items at the indices from 0 on, and writes the new
  \<open>length\<close>.
\<close>

definition arrayProtoUnshift :: "jsval \<Rightarrow> jsval list \<Rightarrow> heap \<Rightarrow> error + heap" where
  "arrayProtoUnshift this items h =
     (case this of
        Ref a \<Rightarrow>
          (case deref h this of
             Some (Arr xs) \<Rightarrow> Inr (h[a := Arr (items @ xs)])
           | Some (Obj kvs) \<Rightarrow>
               (case toLength (getProp h this ''length'') of
                  None \<Rightarrow> Inl NotModelled
                | Some len \<Rightarrow>
                    if items \<noteq> [] \<and> maxSafe < len + length items then Inl TypeError
                    else Inr (h[a := Obj (updateKey
                                (if items = [] then kvs
                                 else pushProps (moveUp len (length items) kvs) 0 items)
                                ''length'' (Num (int (len + length items))))]))
           | None \<Rightarrow> Inl NotModelled)
      | _ \<Rightarrow> Inl NotModelled)"

definition callFn :: "jsfn \<Rightarrow> jsval \<Rightarrow> jsval list \<Rightarrow> heap \<Rightarrow> error + heap" where
  "callFn f this items h =
     (case f of
        ArrayProtoPush \<Rightarrow> arrayProtoPush this items h
      | ArrayProtoUnshift \<Rightarrow> arrayProtoUnshift this items h)"

text \<open>
  The function that \<open>input[name]\<close> is, when it is one: an array inherits \<open>push\<close> and
  \<open>unshift\<close>, a plain object has the functions among its own properties, and nothing else
  has a function under these names.
\<close>

definition methodOf :: "heap \<Rightarrow> jsval \<Rightarrow> string \<Rightarrow> jsfn option" where
  "methodOf h input name =
     (case deref h input of
        Some (Arr xs) \<Rightarrow>
          (if name = ''push'' then Some ArrayProtoPush
           else if name = ''unshift'' then Some ArrayProtoUnshift
           else None)
      | Some (Obj kvs) \<Rightarrow> (case map_of kvs name of Some (Fn f) \<Rightarrow> Some f | _ \<Rightarrow> None)
      | None \<Rightarrow> None)"

text \<open>
  \<open>input.push(...items)\<close> and \<open>input.unshift(...items)\<close>: the call of whatever function
  the input has under the name, with the input as \<open>this\<close>. Nothing tests that the input is
  an array. Without a function under the name, the call throws a \<open>TypeError\<close>.
\<close>

definition push :: "jsval \<Rightarrow> jsval list \<Rightarrow> heap \<Rightarrow> error + heap" where
  "push input items h =
     (case methodOf h input ''push'' of
        Some f \<Rightarrow> callFn f input items h
      | None \<Rightarrow> Inl TypeError)"

definition unshift :: "jsval \<Rightarrow> jsval list \<Rightarrow> heap \<Rightarrow> error + heap" where
  "unshift input items h =
     (case methodOf h input ''unshift'' of
        Some f \<Rightarrow> callFn f input items h
      | None \<Rightarrow> Inl TypeError)"

text \<open>
  \<open>items.concat(input)\<close>, where \<open>items\<close> is the array of the rest parameter: a new array
  with the items, followed by the elements of \<open>input\<close> when it is an array, and by \<open>input\<close>
  itself otherwise. It never throws.
\<close>

definition concat_items :: "jsval list \<Rightarrow> jsval \<Rightarrow> heap \<Rightarrow> jsval \<times> heap" where
  "concat_items items input h =
     (case deref h input of
        Some (Arr xs) \<Rightarrow> alloc (Arr (items @ xs)) h
      | _ \<Rightarrow> alloc (Arr (items @ [input])) h)"

section \<open>The utilities of lodash and immer\<close>

text \<open>
  lodash is not part of the repository. A path is a dotted string or an array of keys; a
  dotted string is split at its dots (brackets are not modelled), unless the object has the
  whole string as a key.
\<close>

datatype path = Dotted string | Keys "string list"

fun stringToPath :: "string \<Rightarrow> string list" where
  "stringToPath [] = [[]]"
| "stringToPath (c # cs) =
     (if c = CHR ''.'' then [] # stringToPath cs
      else (case stringToPath cs of
              k # ks \<Rightarrow> (c # k) # ks
            | [] \<Rightarrow> [[c]]))"

definition castPath :: "path \<Rightarrow> jsval \<Rightarrow> heap \<Rightarrow> string list" where
  "castPath p object h =
     (case p of
        Keys ks \<Rightarrow> ks
      | Dotted s \<Rightarrow> (if CHR ''.'' \<notin> set s \<or> hasOwn h object s then [s] else stringToPath s))"

text \<open>
  Modelled from the spec: \<open>lodash/get\<close> is missing from the sources. Section 6 of the spec
  gives \<open>get(value, path)\<close>: the child at the path, or \<open>undefined\<close>. The loop is
  lodash's \<open>baseGet\<close>.
\<close>

fun baseGet :: "heap \<Rightarrow> jsval \<Rightarrow> string list \<Rightarrow> jsval" where
  "baseGet h object [] = object"
| "baseGet h object (k # ks) =
     (if object = Undefined \<or> object = Null then Undefined
      else baseGet h (getProp h object k) ks)"

definition lodashGet :: "heap \<Rightarrow> jsval \<Rightarrow> path \<Rightarrow> jsval" where
  "lodashGet h object p =
     (if object = Undefined \<or> object = Null then Undefined
      else (case castPath p object h of
              [] \<Rightarrow> Undefined
            | k # ks \<Rightarrow> baseGet h object (k # ks)))"

text \<open>
  Modelled from the spec: \<open>lodash/set\<close> is missing from the sources. Section 6 of the spec
  gives \<open>set(value, path, newValue)\<close>: it mutates \<open>value\<close> in place and creates the
  containers on the way as needed. The loop is lodash's \<open>baseSet\<close>: it does nothing on a
  value that is not an object, it stops at the keys of a prototype, and the container it
  creates is an array when the next key is an index.
\<close>

definition unsafeKey :: "string \<Rightarrow> bool" where
  "unsafeKey k = (k = ''__proto__'' \<or> k = ''constructor'' \<or> k = ''prototype'')"

text \<open>\<open>assignValue\<close> writes unless the object has the property with that very value.\<close>

definition assignValue :: "jsval \<Rightarrow> string \<Rightarrow> jsval \<Rightarrow> heap \<Rightarrow> error + heap" where
  "assignValue object k v h =
     (if hasOwn h object k \<and> getProp h object k = v then Inr h else setProp object k v h)"

fun baseSetLoop :: "jsval \<Rightarrow> string list \<Rightarrow> jsval \<Rightarrow> heap \<Rightarrow> error + heap" where
  "baseSetLoop nested [] v h = Inr h"
| "baseSetLoop nested [k] v h =
     (if nested = Undefined \<or> nested = Null \<or> unsafeKey k then Inr h
      else assignValue nested k v h)"
| "baseSetLoop nested (k # k' # ks) v h =
     (if nested = Undefined \<or> nested = Null \<or> unsafeKey k then Inr h
      else
        (let objValue = getProp h nested k in
         if isObject objValue then
           (case assignValue nested k objValue h of
              Inl e \<Rightarrow> Inl e
            | Inr h1 \<Rightarrow> baseSetLoop (getProp h1 nested k) (k' # ks) v h1)
         else
           (case alloc (if parseIndex k' = None then Obj [] else Arr []) h of
              (newValue, h1) \<Rightarrow>
                (case assignValue nested k newValue h1 of
                   Inl e \<Rightarrow> Inl e
                 | Inr h2 \<Rightarrow> baseSetLoop (getProp h2 nested k) (k' # ks) v h2))))"

definition lodashSet :: "jsval \<Rightarrow> path \<Rightarrow> jsval \<Rightarrow> heap \<Rightarrow> error + heap" where
  "lodashSet object p v h =
     (if isObject object then baseSetLoop object (castPath p object h) v h else Inr h)"

text \<open>
  Modelled from the spec: immer's \<open>produce\<close> is missing from the sources. Section 6 of the
  spec gives \<open>produce(value, recipe)\<close>: the recipe receives a mutable draft of \<open>value\<close>,
  and \<open>produce\<close> returns a new value with the edits of the recipe and leaves \<open>value\<close>
  untouched. The draft is a private copy of the object graph of the value. The model copies
  every object of the store, moved up by the size of the store, so that the copy of the
  object at \<open>a\<close> is at \<open>a + length h\<close>: sharing and cycles inside the graph are kept, and
  the copies of objects that the value does not reach are referred to by nothing. When the
  recipe has left the store as it was, nothing was edited and the result is the value itself,
  in the store without the draft. A value that is not an object has no draft: the recipe
  receives the value, and the value is the result (the recipes of this program return
  nothing). immer shares the untouched parts of the result with the value; the result of
  the model shares nothing with it but what the recipe stored. Whether an object is frozen
  is not part of the store.
\<close>

definition shiftVal :: "nat \<Rightarrow> jsval \<Rightarrow> jsval" where
  "shiftVal n v = (case v of Ref a \<Rightarrow> Ref (a + n) | _ \<Rightarrow> v)"

definition shiftObj :: "nat \<Rightarrow> jsobj \<Rightarrow> jsobj" where
  "shiftObj n ob =
     (case ob of
        Arr xs \<Rightarrow> Arr (map (shiftVal n) xs)
      | Obj kvs \<Rightarrow> Obj (map (\<lambda>(k, v). (k, shiftVal n v)) kvs))"

definition createDraft :: "jsval \<Rightarrow> heap \<Rightarrow> jsval \<times> heap" where
  "createDraft base h = (shiftVal (length h) base, h @ map (shiftObj (length h)) h)"

definition produce ::
  "jsval \<Rightarrow> (jsval \<Rightarrow> heap \<Rightarrow> error + heap) \<Rightarrow> heap \<Rightarrow> error + (jsval \<times> heap)" where
  "produce base recipe h =
     (if isDraftable base then
        (case createDraft base h of
           (draft, h1) \<Rightarrow>
             (case recipe draft h1 of
                Inl e \<Rightarrow> Inl e
              | Inr h2 \<Rightarrow> if h2 = h1 then Inr (base, h) else Inr (draft, h2)))
      else
        (case recipe base h of
           Inl e \<Rightarrow> Inl e
         | Inr h' \<Rightarrow> Inr (base, h')))"

section \<open>The instructions (instructions.ts)\<close>

definition withoutMutating :: "Instruction \<Rightarrow> Instruction" where
  "withoutMutating instruction =
     makeInstruction (\<lambda>input h.
       produce input
         (\<lambda>draft h'. case modifier instruction draft h' of
                        Inl e \<Rightarrow> Inl e
                      | Inr (r, h'') \<Rightarrow> Inr h'')
         h)"

text \<open>
  \<open>lodashMerge(input, other)\<close> is a parameter: it mutates its first argument in place, or
  throws.
\<close>

definition mergeMutate ::
  "(jsval \<Rightarrow> jsval \<Rightarrow> heap \<Rightarrow> error + heap) \<Rightarrow> jsval \<Rightarrow> Instruction" where
  "mergeMutate lodashMerge other =
     makeInstruction (\<lambda>input h.
       case lodashMerge input other h of
         Inl e \<Rightarrow> Inl e
       | Inr h' \<Rightarrow> Inr (input, h'))"

definition mergeNoMutate ::
  "(jsval \<Rightarrow> jsval \<Rightarrow> heap \<Rightarrow> error + heap) \<Rightarrow> jsval \<Rightarrow> Instruction" where
  "mergeNoMutate lodashMerge other = withoutMutating (mergeMutate lodashMerge other)"

definition setMutate :: "path \<Rightarrow> jsval \<Rightarrow> Instruction" where
  "setMutate p v =
     makeInstruction (\<lambda>input h.
       case lodashSet input p v h of
         Inl e \<Rightarrow> Inl e
       | Inr h' \<Rightarrow> Inr (input, h'))"

definition setNoMutate :: "path \<Rightarrow> jsval \<Rightarrow> Instruction" where
  "setNoMutate p v = withoutMutating (setMutate p v)"

definition transform :: "modifier_fn \<Rightarrow> Instruction" where
  "transform callback = makeInstruction callback"

text \<open>The callback is a function of the caller: what it returns is dropped.\<close>

definition modifyMutate :: "modifier_fn \<Rightarrow> Instruction" where
  "modifyMutate callback =
     makeInstruction (\<lambda>input h.
       case callback input h of
         Inl e \<Rightarrow> Inl e
       | Inr (r, h') \<Rightarrow> Inr (input, h'))"

definition modifyNoMutate :: "modifier_fn \<Rightarrow> Instruction" where
  "modifyNoMutate callback = withoutMutating (modifyMutate callback)"

definition replace :: "jsval \<Rightarrow> Instruction" where
  "replace newValue = makeInstruction (\<lambda>input h. Inr (newValue, h))"

definition appendMutate :: "jsval list \<Rightarrow> Instruction" where
  "appendMutate items =
     makeInstruction (\<lambda>input h.
       case push input items h of
         Inl e \<Rightarrow> Inl e
       | Inr h' \<Rightarrow> Inr (input, h'))"

definition appendNoMutate :: "jsval list \<Rightarrow> Instruction" where
  "appendNoMutate items = withoutMutating (appendMutate items)"

definition prependMutate :: "jsval list \<Rightarrow> Instruction" where
  "prependMutate items =
     makeInstruction (\<lambda>input h.
       case unshift input items h of
         Inl e \<Rightarrow> Inl e
       | Inr h' \<Rightarrow> Inr (input, h'))"

definition prependNoMutate :: "jsval list \<Rightarrow> Instruction" where
  "prependNoMutate items = makeInstruction (\<lambda>input h. Inr (concat_items items input h))"

definition deletePropertyMutate :: "string \<Rightarrow> Instruction" where
  "deletePropertyMutate propertyName =
     makeInstruction (\<lambda>input h.
       case deleteProp input propertyName h of
         Inl e \<Rightarrow> Inl e
       | Inr h' \<Rightarrow> Inr (input, h'))"

definition deletePropertyNoMutate :: "string \<Rightarrow> Instruction" where
  "deletePropertyNoMutate propertyName = withoutMutating (deletePropertyMutate propertyName)"

definition atMutate :: "path \<Rightarrow> Instruction \<Rightarrow> Instruction" where
  "atMutate p instruction =
     makeInstruction (\<lambda>input h.
       let child = lodashGet h input p in
       case modifier instruction child h of
         Inl e \<Rightarrow> Inl e
       | Inr (newChild, h1) \<Rightarrow>
           (case lodashSet input p newChild h1 of
              Inl e \<Rightarrow> Inl e
            | Inr h2 \<Rightarrow> Inr (input, h2)))"

definition atNoMutate :: "path \<Rightarrow> Instruction \<Rightarrow> Instruction" where
  "atNoMutate p instruction = withoutMutating (atMutate p instruction)"

section \<open>What a value holds, and which objects an instruction may write\<close>

text \<open>
  The contents of a value down to a depth: the tree of what is read through it. Two values
  are deeply equal when their trees are the same at every depth.
\<close>

datatype jstree = Leaf jsval | ArrT "jstree list" | ObjT "(string \<times> jstree) list" | Cut

fun snapshot :: "nat \<Rightarrow> heap \<Rightarrow> jsval \<Rightarrow> jstree" where
  "snapshot 0 h v = (if isDraftable v then Cut else Leaf v)"
| "snapshot (Suc d) h v =
     (if isDraftable v then
        (case deref h v of
           Some (Arr xs) \<Rightarrow> ArrT (map (snapshot d h) xs)
         | Some (Obj kvs) \<Rightarrow> ObjT (map (\<lambda>(k, x). (k, snapshot d h x)) kvs)
         | None \<Rightarrow> Cut)
      else Leaf v)"

definition values_of :: "jsobj \<Rightarrow> jsval list" where
  "values_of ob = (case ob of Arr xs \<Rightarrow> xs | Obj kvs \<Rightarrow> map snd kvs)"

text \<open>A store is closed when every reference in it is to one of its objects.\<close>

definition valBelow :: "nat \<Rightarrow> jsval \<Rightarrow> bool" where
  "valBelow n v = (case v of Ref a \<Rightarrow> a < n | _ \<Rightarrow> True)"

definition closedHeap :: "heap \<Rightarrow> bool" where
  "closedHeap h = list_all (\<lambda>ob. list_all (valBelow (length h)) (values_of ob)) h"

text \<open>
  The objects from address \<open>n\<close> on are a region of their own when they refer only to each
  other.
\<close>

definition valAbove :: "nat \<Rightarrow> jsval \<Rightarrow> bool" where
  "valAbove n v = (case v of Ref a \<Rightarrow> n \<le> a | _ \<Rightarrow> True)"

definition regionClosed :: "nat \<Rightarrow> heap \<Rightarrow> bool" where
  "regionClosed n h = list_all (\<lambda>ob. list_all (valAbove n) (values_of ob)) (drop n h)"

text \<open>
  A modifier is local when it writes only to the objects its argument reaches: run on an
  argument of a region of its own, it leaves every object below the region as it is.
\<close>

definition localModifier :: "modifier_fn \<Rightarrow> bool" where
  "localModifier f =
     (\<forall>n v h r h'. n \<le> length h \<and> valAbove n v \<and> regionClosed n h \<and> f v h = Inr (r, h')
        \<longrightarrow> take n h' = take n h)"

text \<open>
  An instruction keeps its input when, whenever it returns, every object of the store it
  was given is as it was, so that the input holds what it held, at every depth; the result
  is the input itself or an object that was not in the store; and a result that does not
  hold what the input held is not the input.
\<close>

definition keepsInput :: "Instruction \<Rightarrow> jsval \<Rightarrow> heap \<Rightarrow> bool" where
  "keepsInput ins input h =
     (\<forall>out h'. modifier ins input h = Inr (out, h') \<longrightarrow>
        take (length h) h' = h
        \<and> (\<forall>d. snapshot d h' input = snapshot d h input)
        \<and> (out = input \<or> (\<exists>a. out = Ref a \<and> length h \<le> a))
        \<and> ((\<exists>d. snapshot d h' out \<noteq> snapshot d h input) \<longrightarrow> out \<noteq> input))"

text \<open>An instruction returns its input when, whenever it returns, the result is the input.\<close>

definition returnsInput :: "Instruction \<Rightarrow> jsval \<Rightarrow> heap \<Rightarrow> bool" where
  "returnsInput ins input h =
     (\<forall>out h'. modifier ins input h = Inr (out, h') \<longrightarrow> out = input)"

section \<open>Programs of the examples\<close>

text \<open>The matcher of the numbers above zero, the matcher of everything.\<close>

definition positive :: TypeDef where
  "positive v h = (case v of Num n \<Rightarrow> 0 < n | _ \<Rightarrow> False)"

definition anything :: TypeDef where
  "anything v h = True"

text \<open>The callback \<open>x => x + k\<close>, for a number \<open>x\<close>.\<close>

definition plus :: "int \<Rightarrow> modifier_fn" where
  "plus k v h = (case v of Num n \<Rightarrow> Inr (Num (n + k), h) | _ \<Rightarrow> Inl NotModelled)"

text \<open>The callback \<open>draft => { draft.count = 2 }\<close>, for an object.\<close>

definition setCount :: modifier_fn where
  "setCount v h =
     (case setProp v ''count'' (Num 2) h of
        Inl e \<Rightarrow> Inl e
      | Inr h' \<Rightarrow> Inr (Undefined, h'))"

text \<open>
  What lodash's \<open>merge\<close> does when the target and the source are plain objects and the
  properties of the source are primitives other than \<open>undefined\<close>: every property of the
  source is written to the target.
\<close>

definition mergeFlat :: "jsval \<Rightarrow> jsval \<Rightarrow> heap \<Rightarrow> error + heap" where
  "mergeFlat target source h =
     (case target of
        Ref a \<Rightarrow>
          (case (deref h target, deref h source) of
             (Some (Obj tkvs), Some (Obj skvs)) \<Rightarrow>
               if list_all (\<lambda>(k, v). \<not> isObject v \<and> v \<noteq> Undefined) skvs
               then Inr (h[a := Obj (foldl (\<lambda>kvs (k, v). updateKey kvs k v) tkvs skvs)])
               else Inl NotModelled
           | _ \<Rightarrow> Inl NotModelled)
      | _ \<Rightarrow> Inl NotModelled)"

text \<open>The store of \<open>{count: 1}\<close>, \<open>[1]\<close> and \<open>{count: 5}\<close>; the store of \<open>{a: {b: 5}}\<close>.\<close>

definition hw :: heap where
  "hw = [Obj [(''count'', Num 1)], Arr [Num 1], Obj [(''count'', Num 5)]]"

definition h_ab :: heap where
  "h_ab = [Obj [(''b'', Num 5)], Obj [(''a'', Ref 0)]]"

text \<open>The programs of a list, written back as the list of tokens they come from.\<close>

definition describe :: "Program list \<Rightarrow> TypeDef token list" where
  "describe ps = concat (map (\<lambda>p. Description (matcher p) # map Instr (instructions p)) ps)"

section \<open>The loop of one program\<close>

lemma matches_instructions_update [simp]:
  "matches (p\<lparr>instructions := ins\<rparr>) = matches p"
  by (simp add: matches_def fun_eq_iff)

lemma runProgramLoop_instructions_update [simp]:
  "runProgramLoop (p\<lparr>instructions := js\<rparr>) ins m t h = runProgramLoop p ins m t h"
  by (induction ins arbitrary: m t h) (auto split: sum.splits)

lemma runProgramLoop_append:
  "runProgramLoop p (ins @ js) m t h =
     (case runProgramLoop p ins m t h of
        Inl e \<Rightarrow> Inl e
      | Inr (r, h1) \<Rightarrow> runProgramLoop p js (matched r) (output r) h1)"
  by (induction ins arbitrary: m t h) (auto split: sum.splits)

lemma runProgramLoop_skip:
  "\<not> matches p t h \<Longrightarrow> runProgramLoop p ins m t h = Inr (\<lparr>matched = m, output = t\<rparr>, h)"
  by (induction ins) auto

lemma runProgram_no_match:
  "\<not> matches p v h \<Longrightarrow> runProgram p v h = Inr (\<lparr>matched = False, output = v\<rparr>, h)"
  by (simp add: runProgram_def runProgramLoop_skip)

lemma runProgram_empty:
  "instructions p = [] \<Longrightarrow> runProgram p v h = Inr (\<lparr>matched = False, output = v\<rparr>, h)"
  by (simp add: runProgram_def)

text \<open>
  C1. \<open>runProgram\<close> tests the matcher on the current target before every instruction: the
  run of the instructions \<open>ins\<close> followed by \<open>i\<close> is the run of \<open>ins\<close>, then the test of the
  matcher on its output, then \<open>i\<close> on that output with \<open>matched\<close> set, or nothing when the
  test fails. So when \<open>i\<close> has run and its result does not satisfy the matcher, whatever
  instructions \<open>js\<close> follow are skipped: the output is the result of \<open>i\<close>, and \<open>matched\<close>
  is true.
\<close>

theorem runProgram_rechecks_matcher:
  "runProgram (p\<lparr>instructions := ins @ [i]\<rparr>) v h =
     (case runProgram (p\<lparr>instructions := ins\<rparr>) v h of
        Inl e \<Rightarrow> Inl e
      | Inr (r, h1) \<Rightarrow>
          if matches p (output r) h1 then
            (case modifier i (output r) h1 of
               Inl e \<Rightarrow> Inl e
             | Inr (t, h2) \<Rightarrow> Inr (\<lparr>matched = True, output = t\<rparr>, h2))
          else Inr (r, h1))
   \<and> (runProgram (p\<lparr>instructions := ins\<rparr>) v h = Inr (r, h1) \<longrightarrow>
        matches p (output r) h1 \<longrightarrow>
        modifier i (output r) h1 = Inr (t, h2) \<longrightarrow>
        \<not> matches p t h2 \<longrightarrow>
        runProgram (p\<lparr>instructions := ins @ i # js\<rparr>) v h
          = Inr (\<lparr>matched = True, output = t\<rparr>, h2))"
proof (intro conjI impI)
  show "runProgram (p\<lparr>instructions := ins @ [i]\<rparr>) v h =
     (case runProgram (p\<lparr>instructions := ins\<rparr>) v h of
        Inl e \<Rightarrow> Inl e
      | Inr (r, h1) \<Rightarrow>
          if matches p (output r) h1 then
            (case modifier i (output r) h1 of
               Inl e \<Rightarrow> Inl e
             | Inr (t, h2) \<Rightarrow> Inr (\<lparr>matched = True, output = t\<rparr>, h2))
          else Inr (r, h1))"
    by (simp add: runProgram_def runProgramLoop_append split: sum.splits)
next
  assume run: "runProgram (p\<lparr>instructions := ins\<rparr>) v h = Inr (r, h1)"
    and m: "matches p (output r) h1"
    and step: "modifier i (output r) h1 = Inr (t, h2)"
    and nm: "\<not> matches p t h2"
  have "runProgramLoop p (ins @ i # js) False v h
      = runProgramLoop p (i # js) (matched r) (output r) h1"
    using run by (simp add: runProgram_def runProgramLoop_append)
  also have "\<dots> = runProgramLoop p js True t h2"
    using m step by simp
  also have "\<dots> = Inr (\<lparr>matched = True, output = t\<rparr>, h2)"
    using nm by (rule runProgramLoop_skip)
  finally show "runProgram (p\<lparr>instructions := ins @ i # js\<rparr>) v h
      = Inr (\<lparr>matched = True, output = t\<rparr>, h2)"
    by (simp add: runProgram_def)
qed

text \<open>
  The matcher of the numbers above zero, \<open>x => x - 10\<close> and \<open>x => x + 1\<close>, on 5: the
  first instruction gives -5, the second is skipped, and the program has matched.
\<close>

theorem runProgram_rechecks_matcher_witness:
  "runProgram \<lparr>matcher = positive, instructions = [transform (plus (- 10)), transform (plus 1)]\<rparr>
     (Num 5) [] = Inr (\<lparr>matched = True, output = Num (- 5)\<rparr>, [])"
  using runProgram_rechecks_matcher
    [where p = "\<lparr>matcher = positive, instructions = []\<rparr>" and ins = "[]"
       and i = "transform (plus (- 10))" and v = "Num 5" and h = "[]"
       and r = "\<lparr>matched = False, output = Num 5\<rparr>" and ?h1.0 = "[]" and t = "Num (- 5)"
       and ?h2.0 = "[]" and js = "[transform (plus 1)]"]
  by (simp add: runProgram_def matches_def positive_def plus_def transform_def makeInstruction_def)

section \<open>The loop over the programs\<close>

lemma runPrograms_eq: "runPrograms = runProgramsLoop"
  by (simp add: fun_eq_iff runPrograms_def)

lemma runProgramsLoop_append_no_stop:
  "\<not> stopAfterFirstMatch opts \<Longrightarrow>
   runProgramsLoop (ps @ qs) opts v h =
     (case runProgramsLoop ps opts v h of
        Inl e \<Rightarrow> Inl e
      | Inr (v1, h1) \<Rightarrow> runProgramsLoop qs opts v1 h1)"
  by (induction ps arbitrary: v h) (auto split: sum.splits)

lemma runProgramsLoop_no_match:
  "\<forall>p \<in> set ps. \<not> matches p v h \<Longrightarrow> runProgramsLoop ps opts v h = Inr (v, h)"
  by (induction ps) (auto simp: runProgram_no_match)

lemma runProgramsLoop_drop_empty:
  "instructions p = [] \<Longrightarrow>
   runProgramsLoop (pre @ p # post) opts v h = runProgramsLoop (pre @ post) opts v h"
  by (induction pre arbitrary: v h) (auto simp: runProgram_empty split: sum.splits)

text \<open>
  C2. \<open>runPrograms\<close> takes the programs in order. A program whose matcher fails on the
  current target returns it as it is, unmatched. Whatever a program returns, matched or
  not, is the target of the programs after it, unless the program has matched and
  \<open>stopAfterFirstMatch\<close> is set: then its output is the result, whatever programs follow.
  Without \<open>stopAfterFirstMatch\<close>, the run of a list of programs followed by another is
  the run of the first list, then the run of the second on its output.
\<close>

theorem runPrograms_order_and_stop:
  "(\<not> matches p v h \<longrightarrow> runProgram p v h = Inr (\<lparr>matched = False, output = v\<rparr>, h))
   \<and> (runProgram p v h = Inr (r, h1) \<longrightarrow> \<not> (matched r \<and> stopAfterFirstMatch opts) \<longrightarrow>
        runPrograms (p # ps) opts v h = runPrograms ps opts (output r) h1)
   \<and> (runProgram p v h = Inr (r, h1) \<longrightarrow> matched r \<longrightarrow> stopAfterFirstMatch opts \<longrightarrow>
        runPrograms (p # ps) opts v h = Inr (output r, h1))
   \<and> (\<not> stopAfterFirstMatch opts \<longrightarrow>
        runPrograms (qs @ ps) opts v h =
          (case runPrograms qs opts v h of
             Inl e \<Rightarrow> Inl e
           | Inr (v1, h1) \<Rightarrow> runPrograms ps opts v1 h1))"
  by (simp add: runPrograms_eq runProgram_no_match runProgramsLoop_append_no_stop
      cong: sum.case_cong)

text \<open>
  Two programs for the numbers above zero, each adding 1, on 1: with
  \<open>stopAfterFirstMatch\<close> only the first runs (2), without it both do (3); on -1 neither
  matches.
\<close>

theorem runPrograms_order_and_stop_witness:
  "runPrograms [\<lparr>matcher = positive, instructions = [transform (plus 1)]\<rparr>,
                \<lparr>matcher = positive, instructions = [transform (plus 1)]\<rparr>]
     \<lparr>stopAfterFirstMatch = True\<rparr> (Num 1) [] = Inr (Num 2, [])
   \<and> runPrograms [\<lparr>matcher = positive, instructions = [transform (plus 1)]\<rparr>,
                  \<lparr>matcher = positive, instructions = [transform (plus 1)]\<rparr>]
     \<lparr>stopAfterFirstMatch = False\<rparr> (Num 1) [] = Inr (Num 3, [])
   \<and> runProgram \<lparr>matcher = positive, instructions = [transform (plus 1)]\<rparr> (Num (- 1)) []
       = Inr (\<lparr>matched = False, output = Num (- 1)\<rparr>, [])"
  using runPrograms_order_and_stop
    [where p = "\<lparr>matcher = positive, instructions = [transform (plus 1)]\<rparr>"
       and v = "Num 1" and h = "[]" and r = "\<lparr>matched = True, output = Num 2\<rparr>"
       and ?h1.0 = "[]" and opts = "\<lparr>stopAfterFirstMatch = True\<rparr>"
       and ps = "[\<lparr>matcher = positive, instructions = [transform (plus 1)]\<rparr>]" and qs = "[]"]
    runPrograms_order_and_stop
    [where p = "\<lparr>matcher = positive, instructions = [transform (plus 1)]\<rparr>"
       and v = "Num 1" and h = "[]" and r = "\<lparr>matched = True, output = Num 2\<rparr>"
       and ?h1.0 = "[]" and opts = "\<lparr>stopAfterFirstMatch = False\<rparr>"
       and ps = "[\<lparr>matcher = positive, instructions = [transform (plus 1)]\<rparr>]"
       and qs = "[\<lparr>matcher = positive, instructions = [transform (plus 1)]\<rparr>]"]
    runPrograms_order_and_stop
    [where p = "\<lparr>matcher = positive, instructions = [transform (plus 1)]\<rparr>"
       and v = "Num (- 1)" and h = "[]" and opts = "\<lparr>stopAfterFirstMatch = False\<rparr>"
       and qs = "[]" and ps = "[]"]
  by (simp add: runPrograms_def runProgram_def matches_def positive_def plus_def transform_def
      makeInstruction_def)

section \<open>The parser\<close>

lemma parseLoop_matchers:
  "parseLoop c toks ps cur = Inr out \<Longrightarrow>
   matcher ` set out
     = matcher ` set ps \<union> matcher ` set_option cur \<union> {c d |d. Description d \<in> set toks}"
proof (induction c toks ps cur rule: parseLoop.induct)
  case (1 c programs currentProgram)
  then show ?case by (auto split: option.splits)
next
  case (2 c i items programs currentProgram)
  then show ?case by (cases currentProgram) auto
next
  case (3 c d items programs currentProgram)
  then show ?case by (cases currentProgram) (auto simp: newProgram_def)
qed

lemma parseLoop_describe:
  "cur \<noteq> None \<or> (toks \<noteq> [] \<longrightarrow> \<not> isInstruction (hd toks)) \<Longrightarrow>
   \<exists>out. parseLoop c toks ps cur = Inr out \<and>
     describe out
       = describe ps @ describe (case cur of None \<Rightarrow> [] | Some p \<Rightarrow> [p]) @ map (map_token c) toks"
proof (induction c toks ps cur rule: parseLoop.induct)
  case (1 c programs currentProgram)
  then show ?case by (auto simp: describe_def split: option.splits)
next
  case (2 c i items programs currentProgram)
  then show ?case by (cases currentProgram) (auto simp: describe_def)
next
  case (3 c d items programs currentProgram)
  then show ?case by (cases currentProgram) (auto simp: describe_def newProgram_def)
qed

text \<open>
  C3. A description whose first token is an instruction does not parse:
  \<open>parseIntoPrograms\<close> throws, and so does \<open>makeBidoof\<close>, which returns no function to
  run. A description whose first token is a matcher parses: written back as tokens, matcher
  first and instructions after it, program after program, the programs are the description
  with every matcher coerced; and \<open>makeBidoof\<close> returns the function that runs them.
\<close>

theorem parse_malformed_or_grouped:
  "parseIntoPrograms c (Instr i # rest) = Inl MalformedProgramError
   \<and> makeBidoof c (Instr i # rest) opts = Inl MalformedProgramError
   \<and> (\<exists>ps. parseIntoPrograms c (Description d # rest) = Inr ps
          \<and> describe ps = map (map_token c) (Description d # rest)
          \<and> makeBidoof c (Description d # rest) opts
              = Inr (\<lambda>input h. runPrograms ps opts input h))"
proof -
  have "\<exists>ps. parseLoop c (Description d # rest) [] None = Inr ps
     \<and> describe ps = describe [] @ describe [] @ map (map_token c) (Description d # rest)"
    using parseLoop_describe [of None "Description d # rest" c "[]"] by simp
  then show ?thesis
    by (auto simp: parseIntoPrograms_def makeBidoof_def describe_def)
qed

section \<open>Properties of the compiled function\<close>

text \<open>
  C8. When the value satisfies the coerced matcher of no description of the list, the
  function \<open>makeBidoof\<close> returns gives the value back, and leaves the store as it is.
\<close>

theorem identity_pass_through:
  "makeBidoof c toks opts = Inr run \<Longrightarrow>
   (\<forall>d. Description d \<in> set toks \<longrightarrow> \<not> c d v h) \<Longrightarrow>
   run v h = Inr (v, h)"
proof -
  assume mk: "makeBidoof c toks opts = Inr run"
    and no: "\<forall>d. Description d \<in> set toks \<longrightarrow> \<not> c d v h"
  from mk obtain ps where ps: "parseIntoPrograms c toks = Inr ps"
    and run: "run = (\<lambda>input h. runPrograms ps opts input h)"
    by (auto simp: makeBidoof_def split: sum.splits)
  have "matcher ` set ps = {c d |d. Description d \<in> set toks}"
    using parseLoop_matchers [of c toks "[]" None ps] ps by (simp add: parseIntoPrograms_def)
  then have "\<forall>p \<in> set ps. \<exists>d. Description d \<in> set toks \<and> matcher p = c d"
    by blast
  then have "\<forall>p \<in> set ps. \<not> matches p v h"
    unfolding matches_def using no by metis
  then show "run v h = Inr (v, h)"
    by (simp add: run runPrograms_def runProgramsLoop_no_match)
qed

text \<open>A program for the numbers above zero, run on -3.\<close>

theorem identity_pass_through_witness:
  "makeBidoof (\<lambda>d. d) [Description positive, Instr (transform (plus 1))] defaultOptions
     = Inr (\<lambda>input h. runPrograms [\<lparr>matcher = positive, instructions = [transform (plus 1)]\<rparr>]
                        defaultOptions input h)
   \<and> runPrograms [\<lparr>matcher = positive, instructions = [transform (plus 1)]\<rparr>]
        defaultOptions (Num (- 3)) [] = Inr (Num (- 3), [])"
  using identity_pass_through
    [where c = "\<lambda>d. d" and toks = "[Description positive, Instr (transform (plus 1))]"
       and opts = defaultOptions and v = "Num (- 3)" and h = "[]"
       and run = "\<lambda>input h. runPrograms [\<lparr>matcher = positive, instructions = [transform (plus 1)]\<rparr>]
                               defaultOptions input h"]
  by (simp add: makeBidoof_def parseIntoPrograms_def newProgram_def positive_def)

text \<open>
  C9. When the input and \<open>x\<close> both satisfy the matcher \<open>M\<close>, the description
  \<open>[M, replace(x), M, replace(x)]\<close> and the description \<open>[M, replace(x)]\<close> give the same
  result on the input, whatever the options.
\<close>

theorem replace_twice_is_once:
  "c M v h \<Longrightarrow> c M x h \<Longrightarrow>
   (case makeBidoof c [Description M, Instr (replace x), Description M, Instr (replace x)] opts of
      Inl e \<Rightarrow> Inl e | Inr run \<Rightarrow> run v h)
   = (case makeBidoof c [Description M, Instr (replace x)] opts of
      Inl e \<Rightarrow> Inl e | Inr run \<Rightarrow> run v h)"
  by (simp add: makeBidoof_def parseIntoPrograms_def newProgram_def runPrograms_def runProgram_def
      matches_def replace_def makeInstruction_def)

theorem replace_twice_is_once_witness:
  "positive (Num 5) [] \<and> positive (Num 7) []
   \<and> (case makeBidoof (\<lambda>d. d)
         [Description positive, Instr (replace (Num 7)), Description positive, Instr (replace (Num 7))]
         defaultOptions of
      Inl e \<Rightarrow> Inl e | Inr run \<Rightarrow> run (Num 5) [])
   = (case makeBidoof (\<lambda>d. d) [Description positive, Instr (replace (Num 7))] defaultOptions of
      Inl e \<Rightarrow> Inl e | Inr run \<Rightarrow> run (Num 5) [])"
  using replace_twice_is_once
    [where c = "\<lambda>d. d" and M = positive and v = "Num 5" and x = "Num 7" and h = "[]"
       and opts = defaultOptions]
  by (simp add: positive_def)

text \<open>
  C10. A program without instructions returns the input itself, unmatched, in the store as
  it was, whatever its matcher says of the input; in a list of programs it is as if it
  were not there, so it never stops the run.
\<close>

theorem empty_program_never_matches:
  "instructions p = [] \<Longrightarrow>
   runProgram p v h = Inr (\<lparr>matched = False, output = v\<rparr>, h)
   \<and> runPrograms (pre @ p # post) opts v h = runPrograms (pre @ post) opts v h"
  by (simp add: runProgram_empty runPrograms_def runProgramsLoop_drop_empty)

text \<open>
  A matcher of everything without instructions, before a program that adds 1, with
  \<open>stopAfterFirstMatch\<close>: the second program runs.
\<close>

theorem empty_program_never_matches_witness:
  "instructions \<lparr>matcher = anything, instructions = []\<rparr> = []
   \<and> anything (Num 5) []
   \<and> runProgram \<lparr>matcher = anything, instructions = []\<rparr> (Num 5) []
       = Inr (\<lparr>matched = False, output = Num 5\<rparr>, [])
   \<and> runPrograms [\<lparr>matcher = anything, instructions = []\<rparr>,
                  \<lparr>matcher = positive, instructions = [transform (plus 1)]\<rparr>]
        \<lparr>stopAfterFirstMatch = True\<rparr> (Num 5) [] = Inr (Num 6, [])"
  using empty_program_never_matches
    [where p = "\<lparr>matcher = anything, instructions = []\<rparr>" and v = "Num 5" and h = "[]"
       and pre = "[]" and post = "[\<lparr>matcher = positive, instructions = [transform (plus 1)]\<rparr>]"
       and opts = "\<lparr>stopAfterFirstMatch = True\<rparr>"]
  by (simp add: runPrograms_def runProgram_def matches_def positive_def anything_def plus_def
      transform_def makeInstruction_def)

section \<open>Regions of the store\<close>

lemma valAbove_simps [simp]:
  "valAbove n (Ref a) = (n \<le> a)" "valAbove n Undefined" "valAbove n Null"
  "valAbove n (Bool b)" "valAbove n (Num i)" "valAbove n (Str s)" "valAbove n (Fn f)"
  by (simp_all add: valAbove_def)

lemma valAbove_shiftVal: "valAbove n (shiftVal n v)"
  by (cases v) (simp_all add: shiftVal_def)

lemma values_of_shiftObj: "values_of (shiftObj n ob) = map (shiftVal n) (values_of ob)"
  by (cases ob) (auto simp: values_of_def shiftObj_def)

lemma regionClosed_createDraft:
  "regionClosed (length h) (h @ map (shiftObj (length h)) h)"
  by (simp add: regionClosed_def list_all_iff values_of_shiftObj valAbove_shiftVal)

lemma regionClosed_top: "regionClosed (length h) h"
  by (simp add: regionClosed_def)

lemma take_update_above: "n \<le> a \<Longrightarrow> take n (h[a := x]) = take n h"
  by simp

lemma regionClosed_nth:
  "regionClosed n h \<Longrightarrow> n \<le> a \<Longrightarrow> a < length h \<Longrightarrow> list_all (valAbove n) (values_of (h ! a))"
proof -
  assume rc: "regionClosed n h" and na: "n \<le> a" and al: "a < length h"
  have "drop n h ! (a - n) = h ! a"
    using na al by simp
  moreover have "a - n < length (drop n h)"
    using na al by simp
  ultimately have "h ! a \<in> set (drop n h)"
    using nth_mem by metis
  then show ?thesis using rc by (simp add: regionClosed_def list_all_iff)
qed

lemma regionClosed_update:
  "regionClosed n h \<Longrightarrow> list_all (valAbove n) (values_of ob) \<Longrightarrow> regionClosed n (h[a := ob])"
proof (cases "n \<le> a")
  case True
  assume rc: "regionClosed n h" and ob: "list_all (valAbove n) (values_of ob)"
  have "set ((drop n h)[a - n := ob]) \<subseteq> insert ob (set (drop n h))"
    by (rule set_update_subset_insert)
  then show ?thesis
    using rc ob True by (auto simp: regionClosed_def list_all_iff drop_update_swap)
next
  case False
  assume "regionClosed n h"
  then show ?thesis using False by (simp add: regionClosed_def drop_update_cancel)
qed

lemma regionClosed_append:
  "regionClosed n h \<Longrightarrow> n \<le> length h \<Longrightarrow> list_all (valAbove n) (values_of ob)
   \<Longrightarrow> regionClosed n (h @ [ob])"
  by (simp add: regionClosed_def)

lemma values_of_updateKey:
  "(k', x) \<in> set (updateKey kvs k v) \<Longrightarrow> x = v \<or> x \<in> snd ` set kvs"
  by (induction kvs k v rule: updateKey.induct) (force split: if_splits)+

lemma values_of_updateIndex:
  "set (updateIndex xs i v) \<subseteq> insert Undefined (insert v (set xs))"
  using set_update_subset_insert [of xs i v] by (auto simp: updateIndex_def)

lemma setProp_take:
  "valAbove n object \<Longrightarrow> setProp object k v h = Inr h' \<Longrightarrow>
   take n h' = take n h \<and> length h' = length h"
  by (auto simp: setProp_def split: jsval.splits option.splits jsobj.splits)

lemma setProp_region:
  assumes "regionClosed n h" "valAbove n object" "valAbove n v" "setProp object k v h = Inr h'"
  shows "regionClosed n h'"
proof -
  from assms(4) obtain a where a: "object = Ref a" "a < length h"
    by (auto simp: setProp_def deref_def split: jsval.splits if_splits)
  with assms(2) have na: "n \<le> a" by simp
  have old: "list_all (valAbove n) (values_of (h ! a))"
    using regionClosed_nth [OF assms(1) na a(2)] .
  show ?thesis
  proof (cases "h ! a")
    case (Arr xs)
    with assms(4) a obtain i where h': "h' = h[a := Arr (updateIndex xs i v)]"
      by (auto simp: setProp_def deref_def split: option.splits)
    have "list_all (valAbove n) (updateIndex xs i v)"
      using old Arr assms(3) values_of_updateIndex [of xs i v]
      by (auto simp: list_all_iff values_of_def)
    then show ?thesis
      unfolding h' using assms(1) by (intro regionClosed_update) (simp_all add: values_of_def)
  next
    case (Obj kvs)
    with assms(4) a have h': "h' = h[a := Obj (updateKey kvs k v)]"
      by (auto simp: setProp_def deref_def)
    have "list_all (valAbove n) (map snd (updateKey kvs k v))"
      using old Obj assms(3)
      by (auto simp: list_all_iff values_of_def dest!: values_of_updateKey)
    then show ?thesis
      unfolding h' using assms(1) by (intro regionClosed_update) (simp_all add: values_of_def)
  qed
qed

lemma assignValue_take:
  "valAbove n object \<Longrightarrow> assignValue object k v h = Inr h' \<Longrightarrow>
   take n h' = take n h \<and> length h' = length h"
  using setProp_take by (auto simp: assignValue_def split: if_splits)

lemma assignValue_region:
  "regionClosed n h \<Longrightarrow> valAbove n object \<Longrightarrow> valAbove n v \<Longrightarrow>
   assignValue object k v h = Inr h' \<Longrightarrow> regionClosed n h'"
  using setProp_region by (auto simp: assignValue_def split: if_splits)

lemma getProp_region:
  assumes "regionClosed n h" "valAbove n object"
  shows "valAbove n (getProp h object k)"
proof (cases "deref h object")
  case None
  then show ?thesis by (simp add: getProp_def)
next
  case (Some ob)
  then obtain a where a: "object = Ref a" "a < length h" "ob = h ! a"
    by (auto simp: deref_def split: jsval.splits if_splits)
  with assms(2) have na: "n \<le> a" by simp
  have old: "list_all (valAbove n) (values_of ob)"
    using regionClosed_nth [OF assms(1) na a(2)] a(3) by simp
  show ?thesis
  proof (cases ob)
    case (Arr xs)
    then show ?thesis
      using Some old by (auto simp: getProp_def values_of_def list_all_iff split: option.splits)
  next
    case (Obj kvs)
    then show ?thesis
      using Some old
      by (auto simp: getProp_def values_of_def list_all_iff split: option.splits
          dest!: map_of_SomeD)
  qed
qed

lemma baseSetLoop_take:
  "valAbove n nested \<Longrightarrow> regionClosed n h \<Longrightarrow> n \<le> length h \<Longrightarrow>
   baseSetLoop nested ks v h = Inr h' \<Longrightarrow> take n h' = take n h"
proof (induction nested ks v h rule: baseSetLoop.induct)
  case (1 nested v h)
  then show ?case by simp
next
  case (2 nested k v h)
  then show ?case using assignValue_take by (auto split: if_splits)
next
  case (3 nested k k' ks v h)
  show ?case
  proof (cases "nested = Undefined \<or> nested = Null \<or> unsafeKey k")
    case True
    with "3.prems" show ?thesis by simp
  next
    case stop: False
    let ?objValue = "getProp h nested k"
    have ov: "valAbove n ?objValue"
      using getProp_region "3.prems"(1,2) by blast
    show ?thesis
    proof (cases "isObject ?objValue")
      case True
      with stop "3.prems"(4) obtain h1 where
        h1: "assignValue nested k ?objValue h = Inr h1"
        and rest: "baseSetLoop (getProp h1 nested k) (k' # ks) v h1 = Inr h'"
        by (auto simp: Let_def split: sum.splits)
      have t1: "take n h1 = take n h" and l1: "length h1 = length h"
        using assignValue_take [OF "3.prems"(1) h1] by simp_all
      have rc1: "regionClosed n h1"
        using assignValue_region [OF "3.prems"(2,1) ov h1] .
      have "take n h' = take n h1"
        using "3.IH"(1) [OF stop refl True h1 getProp_region [OF rc1 "3.prems"(1)] rc1 _ rest]
          "3.prems"(3) l1 by simp
      then show ?thesis using t1 by simp
    next
      case False
      let ?new = "if parseIndex k' = None then Obj [] else Arr []"
      from False stop "3.prems"(4) obtain h2 where
        h2: "assignValue nested k (Ref (length h)) (h @ [?new]) = Inr h2"
        and rest: "baseSetLoop (getProp h2 nested k) (k' # ks) v h2 = Inr h'"
        by (auto simp: Let_def alloc_def split: sum.splits)
      have rc0: "regionClosed n (h @ [?new])"
        using "3.prems"(2,3) by (intro regionClosed_append) (auto simp: values_of_def)
      have nv: "valAbove n (Ref (length h))" using "3.prems"(3) by simp
      have t2: "take n h2 = take n (h @ [?new])" and l2: "length h2 = length (h @ [?new])"
        using assignValue_take [OF "3.prems"(1) h2] by simp_all
      have rc2: "regionClosed n h2"
        using assignValue_region [OF rc0 "3.prems"(1) nv h2] .
      have al: "alloc ?new h = (Ref (length h), h @ [?new])" by (simp add: alloc_def)
      have "take n h' = take n h2"
        using "3.IH"(2) [OF stop refl False al [symmetric] h2
            getProp_region [OF rc2 "3.prems"(1)] rc2 _ rest]
          "3.prems"(3) l2 by simp
      then show ?thesis using t2 "3.prems"(3) by simp
    qed
  qed
qed

lemma localModifier_lodashSet: "localModifier (modifier (setMutate p v))"
  unfolding localModifier_def setMutate_def makeInstruction_def lodashSet_def
  using baseSetLoop_take by (auto split: sum.splits if_splits)

lemma callFn_take:
  "valAbove n this \<Longrightarrow> callFn f this items h = Inr h' \<Longrightarrow> take n h' = take n h"
  by (cases f)
     (auto simp: callFn_def arrayProtoPush_def arrayProtoUnshift_def
       split: jsval.splits option.splits jsobj.splits if_splits)

lemma push_take: "valAbove n input \<Longrightarrow> push input items h = Inr h' \<Longrightarrow> take n h' = take n h"
  using callFn_take by (auto simp: push_def split: option.splits)

lemma unshift_take:
  "valAbove n input \<Longrightarrow> unshift input items h = Inr h' \<Longrightarrow> take n h' = take n h"
  using callFn_take by (auto simp: unshift_def split: option.splits)

lemma deleteProp_take:
  "valAbove n input \<Longrightarrow> deleteProp input k h = Inr h' \<Longrightarrow> take n h' = take n h"
  by (auto simp: deleteProp_def split: jsval.splits option.splits jsobj.splits if_splits)

lemma localModifier_append: "localModifier (modifier (appendMutate items))"
  unfolding localModifier_def appendMutate_def makeInstruction_def
  using push_take by (auto split: sum.splits)

lemma localModifier_prepend: "localModifier (modifier (prependMutate items))"
  unfolding localModifier_def prependMutate_def makeInstruction_def
  using unshift_take by (auto split: sum.splits)

lemma localModifier_deleteProperty: "localModifier (modifier (deletePropertyMutate k))"
  unfolding localModifier_def deletePropertyMutate_def makeInstruction_def
  using deleteProp_take by (auto split: sum.splits)

lemma localModifier_modify:
  "localModifier callback \<Longrightarrow> localModifier (modifier (modifyMutate callback))"
  unfolding localModifier_def modifyMutate_def makeInstruction_def
  by (auto split: sum.splits)

lemma withoutMutating_take:
  assumes loc: "localModifier (modifier ins)"
    and run: "modifier (withoutMutating ins) input h = Inr (out, h')"
  shows "take (length h) h' = h"
proof (cases "isDraftable input")
  case True
  let ?n = "length h"
  let ?h1 = "h @ map (shiftObj ?n) h"
  let ?draft = "shiftVal ?n input"
  obtain r h2 where m: "modifier ins ?draft ?h1 = Inr (r, h2)"
    and res: "(if h2 = ?h1 then Inr (input, h) else Inr (?draft, h2)) = Inr (out, h')"
  proof (cases "modifier ins ?draft ?h1")
    case (Inl e)
    with run True show ?thesis
      by (simp add: withoutMutating_def makeInstruction_def produce_def createDraft_def)
  next
    case (Inr rh)
    obtain r h2 where rh: "rh = (r, h2)" by (cases rh)
    have "modifier ins ?draft ?h1 = Inr (r, h2)"
      using Inr rh by simp
    moreover have "(if h2 = ?h1 then Inr (input, h) else Inr (?draft, h2)) = Inr (out, h')"
      using run True Inr rh
      by (auto simp add: withoutMutating_def makeInstruction_def produce_def createDraft_def
          split: if_splits)
    ultimately show ?thesis by (rule that)
  qed
  then consider "h' = h" | "modifier ins ?draft ?h1 = Inr (r, h')"
    by (cases "h2 = ?h1") auto
  then show ?thesis
  proof cases
    case 1
    then show ?thesis by simp
  next
    case 2
    have "take ?n h' = take ?n ?h1"
      using loc 2 regionClosed_createDraft [of h] valAbove_shiftVal [of ?n input]
      unfolding localModifier_def by (metis le_add1 length_append)
    then show ?thesis by simp
  qed
next
  case False
  then have va: "valAbove (length h) input"
    by (cases input) (simp_all add: isDraftable_def)
  from run False obtain r where r: "modifier ins input h = Inr (r, h')"
    by (auto simp: withoutMutating_def makeInstruction_def produce_def split: sum.splits)
  have "take (length h) h' = take (length h) h"
    using loc r va regionClosed_top [of h] unfolding localModifier_def by (metis order_refl)
  then show ?thesis by simp
qed

lemma closedHeap_nth:
  "closedHeap h \<Longrightarrow> a < length h \<Longrightarrow> x \<in> set (values_of (h ! a)) \<Longrightarrow> valBelow (length h) x"
  by (auto simp: closedHeap_def list_all_iff)

lemma snapshot_frame:
  assumes ch: "closedHeap h" and fr: "take (length h) h' = h"
  shows "valBelow (length h) v \<Longrightarrow> snapshot d h' v = snapshot d h v"
proof (induction d arbitrary: v)
  case 0
  then show ?case by simp
next
  case (Suc d)
  show ?case
  proof (cases v)
    case (Ref a)
    with Suc.prems have al: "a < length h" by (simp add: valBelow_def)
    have len: "length h \<le> length h'"
    proof -
      have "length (take (length h) h') = length h" using fr by simp
      then show ?thesis by simp
    qed
    have same: "h' ! a = h ! a"
      using fr al by (metis nth_take)
    have kids: "\<And>x. x \<in> set (values_of (h ! a)) \<Longrightarrow> snapshot d h' x = snapshot d h x"
      using Suc.IH closedHeap_nth [OF ch al] by blast
    show ?thesis
    proof (cases "h ! a")
      case (Arr xs)
      then show ?thesis
        using Ref al len same kids by (auto simp: isDraftable_def deref_def values_of_def)
    next
      case (Obj kvs)
      then have "\<And>k x. (k, x) \<in> set kvs \<Longrightarrow> snapshot d h' x = snapshot d h x"
        using kids by (force simp: values_of_def)
      then show ?thesis
        using Obj Ref al len same by (auto simp: isDraftable_def deref_def)
    qed
  qed (simp_all add: isDraftable_def)
qed

lemma withoutMutating_result:
  assumes run: "modifier (withoutMutating ins) input h = Inr (out, h')"
  shows "out = input \<or> (\<exists>a. out = Ref a \<and> length h \<le> a)"
proof (cases "isDraftable input")
  case True
  then obtain a where a: "input = Ref a"
    by (cases input) (simp_all add: isDraftable_def)
  let ?h1 = "h @ map (shiftObj (length h)) h"
  show ?thesis
  proof (cases "modifier ins (Ref (a + length h)) ?h1")
    case (Inl e)
    with run a show ?thesis
      by (simp add: withoutMutating_def makeInstruction_def produce_def createDraft_def
          isDraftable_def shiftVal_def)
  next
    case (Inr rh)
    obtain r h2 where "rh = (r, h2)" by (cases rh)
    with Inr run a show ?thesis
      by (auto simp add: withoutMutating_def makeInstruction_def produce_def createDraft_def
          isDraftable_def shiftVal_def split: if_splits)
  qed
next
  case False
  with run show ?thesis
    by (auto simp: withoutMutating_def makeInstruction_def produce_def split: sum.splits)
qed

lemma keepsInput_withoutMutating:
  assumes "localModifier (modifier ins)" "closedHeap h" "valBelow (length h) input"
  shows "keepsInput (withoutMutating ins) input h"
  unfolding keepsInput_def
proof (intro allI impI)
  fix out h'
  assume run: "modifier (withoutMutating ins) input h = Inr (out, h')"
  have fr: "take (length h) h' = h"
    using withoutMutating_take [OF assms(1) run] .
  have same: "\<forall>d. snapshot d h' input = snapshot d h input"
    using snapshot_frame [OF assms(2) fr assms(3)] by simp
  have new: "out = input \<or> (\<exists>a. out = Ref a \<and> length h \<le> a)"
    using withoutMutating_result [OF run] .
  show "take (length h) h' = h
     \<and> (\<forall>d. snapshot d h' input = snapshot d h input)
     \<and> (out = input \<or> (\<exists>a. out = Ref a \<and> length h \<le> a))
     \<and> ((\<exists>d. snapshot d h' out \<noteq> snapshot d h input) \<longrightarrow> out \<noteq> input)"
    using fr same new by auto
qed

section \<open>Mutating and non-mutating instructions\<close>

lemma localModifier_setCount: "localModifier setCount"
  unfolding localModifier_def setCount_def
  using setProp_take by (auto split: sum.splits)

lemma mergeFlat_take:
  "valAbove n target \<Longrightarrow> mergeFlat target source h = Inr h' \<Longrightarrow> take n h' = take n h"
proof (cases target)
  case (Ref a)
  assume "valAbove n target" and run: "mergeFlat target source h = Inr h'"
  with Ref have na: "n \<le> a" by simp
  from run Ref obtain ob where "h' = h[a := ob]"
    unfolding mergeFlat_def
    by (cases "deref h (Ref a)"; cases "deref h source")
       (auto split: jsobj.splits if_splits)
  then show ?thesis using na by simp
qed (simp_all add: mergeFlat_def)

lemma localModifier_mergeFlat: "localModifier (modifier (mergeMutate mergeFlat other))"
  unfolding localModifier_def mergeMutate_def makeInstruction_def
  using mergeFlat_take by (auto split: sum.splits)

lemma returnsInput_mutating:
  "returnsInput (setMutate p v) input h"
  "returnsInput (mergeMutate lodashMerge other) input h"
  "returnsInput (modifyMutate callback) input h"
  "returnsInput (appendMutate items) input h"
  "returnsInput (deletePropertyMutate k) input h"
  by (auto simp: returnsInput_def setMutate_def mergeMutate_def modifyMutate_def appendMutate_def
      deletePropertyMutate_def makeInstruction_def split: sum.splits)

text \<open>
  C5. On a store without dangling references, the non-mutating \<open>set\<close>, \<open>merge\<close>,
  \<open>modify\<close>, \<open>append\<close> and \<open>deleteProperty\<close> keep their input: when one returns, every
  object of the store it was given is as it was, so the input holds what it held at every
  depth; the result is the input or a new object, and a result that holds something else
  than the input held is not the input. The mutating variants return the input itself. The
  callback of \<open>modify\<close> and the merge of lodash are taken to write only to the objects
  their argument reaches.
\<close>

theorem nonmutating_keeps_input_mutating_returns_input:
  assumes "localModifier callback"
    and "localModifier (modifier (mergeMutate lodashMerge other))"
    and "closedHeap h" and "valBelow (length h) input"
  shows "keepsInput (setNoMutate p v) input h
       \<and> keepsInput (mergeNoMutate lodashMerge other) input h
       \<and> keepsInput (modifyNoMutate callback) input h
       \<and> keepsInput (appendNoMutate items) input h
       \<and> keepsInput (deletePropertyNoMutate k) input h
       \<and> returnsInput (setMutate p v) input h
       \<and> returnsInput (mergeMutate lodashMerge other) input h
       \<and> returnsInput (modifyMutate callback) input h
       \<and> returnsInput (appendMutate items) input h
       \<and> returnsInput (deletePropertyMutate k) input h"
proof -
  note keep = keepsInput_withoutMutating [OF _ assms(3,4)]
  have "keepsInput (setNoMutate p v) input h"
    unfolding setNoMutate_def by (rule keep) (rule localModifier_lodashSet)
  moreover have "keepsInput (mergeNoMutate lodashMerge other) input h"
    unfolding mergeNoMutate_def by (rule keep) (rule assms(2))
  moreover have "keepsInput (modifyNoMutate callback) input h"
    unfolding modifyNoMutate_def by (rule keep) (rule localModifier_modify [OF assms(1)])
  moreover have "keepsInput (appendNoMutate items) input h"
    unfolding appendNoMutate_def by (rule keep) (rule localModifier_append)
  moreover have "keepsInput (deletePropertyNoMutate k) input h"
    unfolding deletePropertyNoMutate_def by (rule keep) (rule localModifier_deleteProperty)
  ultimately show ?thesis
    by (simp add: returnsInput_mutating)
qed

lemmas eval_defs =
  withoutMutating_def makeInstruction_def produce_def createDraft_def isObject_def shiftVal_def
  shiftObj_def deref_def alloc_def getProp_def hasOwn_def setProp_def assignValue_def unsafeKey_def
  lodashGet_def lodashSet_def castPath_def push_def unshift_def deleteProp_def concat_items_def
  transform_def modifyMutate_def modifyNoMutate_def setMutate_def setNoMutate_def
  appendMutate_def appendNoMutate_def prependMutate_def prependNoMutate_def
  deletePropertyMutate_def deletePropertyNoMutate_def atMutate_def atNoMutate_def
  mergeMutate_def mergeNoMutate_def plus_def Let_def isDraftable_def methodOf_def callFn_def
  arrayProtoPush_def arrayProtoUnshift_def toLength_def maxSafe_def pushProps_def removeKey_def
  enumerate_eq_zip

text \<open>
  The store of \<open>{count: 1}\<close>, \<open>[1]\<close> and \<open>{count: 5}\<close>, the callback that sets
  \<open>count\<close> to 2, and the merge of flat objects. Each non-mutating instruction returns a
  new object after the three objects of the store, which are as they were; \<open>set\<close> of the
  value the property has returns the input; the mutating instructions return the input,
  changed.
\<close>

theorem nonmutating_keeps_input_mutating_returns_input_witness:
  "localModifier setCount
   \<and> localModifier (modifier (mergeMutate mergeFlat (Ref 2)))
   \<and> closedHeap hw \<and> valBelow (length hw) (Ref 0) \<and> valBelow (length hw) (Ref 1)
   \<and> modifier (setNoMutate (Dotted ''count'') (Num 2)) (Ref 0) hw
       = Inr (Ref 3, hw @ [Obj [(''count'', Num 2)], Arr [Num 1], Obj [(''count'', Num 5)]])
   \<and> modifier (setNoMutate (Dotted ''count'') (Num 1)) (Ref 0) hw = Inr (Ref 0, hw)
   \<and> modifier (mergeNoMutate mergeFlat (Ref 2)) (Ref 0) hw
       = Inr (Ref 3, hw @ [Obj [(''count'', Num 5)], Arr [Num 1], Obj [(''count'', Num 5)]])
   \<and> modifier (modifyNoMutate setCount) (Ref 0) hw
       = Inr (Ref 3, hw @ [Obj [(''count'', Num 2)], Arr [Num 1], Obj [(''count'', Num 5)]])
   \<and> modifier (appendNoMutate [Num 7]) (Ref 1) hw
       = Inr (Ref 4, hw @ [Obj [(''count'', Num 1)], Arr [Num 1, Num 7], Obj [(''count'', Num 5)]])
   \<and> modifier (deletePropertyNoMutate ''count'') (Ref 0) hw
       = Inr (Ref 3, hw @ [Obj [], Arr [Num 1], Obj [(''count'', Num 5)]])
   \<and> keepsInput (setNoMutate (Dotted ''count'') (Num 2)) (Ref 0) hw
   \<and> keepsInput (mergeNoMutate mergeFlat (Ref 2)) (Ref 0) hw
   \<and> keepsInput (modifyNoMutate setCount) (Ref 0) hw
   \<and> keepsInput (appendNoMutate [Num 7]) (Ref 1) hw
   \<and> keepsInput (deletePropertyNoMutate ''count'') (Ref 0) hw
   \<and> modifier (modifyMutate setCount) (Ref 0) hw
       = Inr (Ref 0, [Obj [(''count'', Num 2)], Arr [Num 1], Obj [(''count'', Num 5)]])
   \<and> modifier (appendMutate [Num 7]) (Ref 1) hw
       = Inr (Ref 1, [Obj [(''count'', Num 1)], Arr [Num 1, Num 7], Obj [(''count'', Num 5)]])
   \<and> returnsInput (modifyMutate setCount) (Ref 0) hw
   \<and> returnsInput (appendMutate [Num 7]) (Ref 1) hw"
proof -
  have ch: "closedHeap hw"
    by (simp add: hw_def closedHeap_def values_of_def valBelow_def)
  have vb0: "valBelow (length hw) (Ref 0)" and vb1: "valBelow (length hw) (Ref 1)"
    by (simp_all add: hw_def valBelow_def)
  note t0 = nonmutating_keeps_input_mutating_returns_input
    [OF localModifier_setCount localModifier_mergeFlat ch vb0,
      where p = "Dotted ''count''" and v = "Num 2" and items = "[Num 7]" and k = "''count''"]
  note t1 = nonmutating_keeps_input_mutating_returns_input
    [OF localModifier_setCount localModifier_mergeFlat ch vb1,
      where p = "Dotted ''count''" and v = "Num 2" and items = "[Num 7]" and k = "''count''"]
  have runs:
    "modifier (setNoMutate (Dotted ''count'') (Num 2)) (Ref 0) hw
       = Inr (Ref 3, hw @ [Obj [(''count'', Num 2)], Arr [Num 1], Obj [(''count'', Num 5)]])"
    "modifier (setNoMutate (Dotted ''count'') (Num 1)) (Ref 0) hw = Inr (Ref 0, hw)"
    "modifier (modifyNoMutate setCount) (Ref 0) hw
       = Inr (Ref 3, hw @ [Obj [(''count'', Num 2)], Arr [Num 1], Obj [(''count'', Num 5)]])"
    "modifier (appendNoMutate [Num 7]) (Ref 1) hw
       = Inr (Ref 4, hw @ [Obj [(''count'', Num 1)], Arr [Num 1, Num 7], Obj [(''count'', Num 5)]])"
    "modifier (deletePropertyNoMutate ''count'') (Ref 0) hw
       = Inr (Ref 3, hw @ [Obj [], Arr [Num 1], Obj [(''count'', Num 5)]])"
    "modifier (modifyMutate setCount) (Ref 0) hw
       = Inr (Ref 0, [Obj [(''count'', Num 2)], Arr [Num 1], Obj [(''count'', Num 5)]])"
    "modifier (appendMutate [Num 7]) (Ref 1) hw
       = Inr (Ref 1, [Obj [(''count'', Num 1)], Arr [Num 1, Num 7], Obj [(''count'', Num 5)]])"
    by (simp_all add: hw_def setCount_def eval_defs)
  have merge: "modifier (mergeNoMutate mergeFlat (Ref 2)) (Ref 0) hw
       = Inr (Ref 3, hw @ [Obj [(''count'', Num 5)], Arr [Num 1], Obj [(''count'', Num 5)]])"
    by (simp add: hw_def mergeFlat_def eval_defs)
  show ?thesis
    using t0 t1 ch vb0 vb1 runs merge localModifier_setCount localModifier_mergeFlat by blast
qed

section \<open>The instruction at a path\<close>

text \<open>
  C7, amended. \<open>at\<close> reads the child at the path, applies the modifier of the inner
  instruction to it and writes the result back at the path. On \<open>{a: {b: 5}}\<close>, with the
  path \<open>a.b\<close>: the inner instruction \<open>transform(x => x + 1)\<close> gives \<open>{a: {b: 6}}\<close>, in a
  new object for \<open>at\<close> and in the input for \<open>at.mutate\<close>; the inner instruction
  \<open>modify(x => x + 1)\<close> drops what its callback returns, and the result is the input,
  which still holds \<open>{a: {b: 5}}\<close>.
\<close>

theorem at_applies_inner_modifier:
  "modifier (atMutate p ins) input h =
     (case modifier ins (lodashGet h input p) h of
        Inl e \<Rightarrow> Inl e
      | Inr (newChild, h1) \<Rightarrow>
          (case lodashSet input p newChild h1 of
             Inl e \<Rightarrow> Inl e
           | Inr h2 \<Rightarrow> Inr (input, h2)))
   \<and> modifier (atNoMutate (Dotted ''a.b'') (transform (plus 1))) (Ref 1) h_ab
       = Inr (Ref 3, h_ab @ [Obj [(''b'', Num 6)], Obj [(''a'', Ref 2)]])
   \<and> snapshot 3 (h_ab @ [Obj [(''b'', Num 6)], Obj [(''a'', Ref 2)]]) (Ref 3)
       = ObjT [(''a'', ObjT [(''b'', Leaf (Num 6))])]
   \<and> modifier (atMutate (Dotted ''a.b'') (transform (plus 1))) (Ref 1) h_ab
       = Inr (Ref 1, [Obj [(''b'', Num 6)], Obj [(''a'', Ref 0)]])
   \<and> modifier (atNoMutate (Dotted ''a.b'') (modifyNoMutate (plus 1))) (Ref 1) h_ab
       = Inr (Ref 1, h_ab)
   \<and> modifier (atMutate (Dotted ''a.b'') (modifyMutate (plus 1))) (Ref 1) h_ab
       = Inr (Ref 1, h_ab)
   \<and> snapshot 3 h_ab (Ref 1) = ObjT [(''a'', ObjT [(''b'', Leaf (Num 5))])]"
proof (intro conjI)
  show "modifier (atMutate p ins) input h =
     (case modifier ins (lodashGet h input p) h of
        Inl e \<Rightarrow> Inl e
      | Inr (newChild, h1) \<Rightarrow>
          (case lodashSet input p newChild h1 of
             Inl e \<Rightarrow> Inl e
           | Inr h2 \<Rightarrow> Inr (input, h2)))"
    by (simp add: atMutate_def makeInstruction_def)
qed (simp_all add: h_ab_def eval_defs eval_nat_numeral)

text \<open>
  C7 as stated fails: \<open>at("a.b", modify(x => x + 1))\<close> on \<open>{a: {b: 5}}\<close> does not return
  a value that holds \<open>{a: {b: 6}}\<close>.
\<close>

theorem at_modify_does_not_increment:
  "\<not> (\<exists>out h'. modifier (atNoMutate (Dotted ''a.b'') (modifyNoMutate (plus 1))) (Ref 1) h_ab
                    = Inr (out, h')
                \<and> snapshot 3 h' out = ObjT [(''a'', ObjT [(''b'', Leaf (Num 6))])])"
proof -
  have "modifier (atNoMutate (Dotted ''a.b'') (modifyNoMutate (plus 1))) (Ref 1) h_ab
       = Inr (Ref 1, h_ab)"
    by (simp add: h_ab_def eval_defs)
  moreover have "snapshot 3 h_ab (Ref 1) = ObjT [(''a'', ObjT [(''b'', Leaf (Num 5))])]"
    by (simp add: h_ab_def eval_defs eval_nat_numeral)
  ultimately show ?thesis by simp
qed

section \<open>How the non-mutating instructions are made\<close>

text \<open>
  C4 as stated fails for \<open>prepend\<close>: its non-mutating variant is not
  \<open>withoutMutating\<close> of its mutating variant. On the number 5 the first returns the new
  array \<open>[1, 5]\<close> and the second throws.
\<close>

theorem prependNoMutate_not_derived:
  "prependNoMutate [Num 1] \<noteq> withoutMutating (prependMutate [Num 1])"
proof
  assume "prependNoMutate [Num 1] = withoutMutating (prependMutate [Num 1])"
  then have "modifier (prependNoMutate [Num 1]) (Num 5) []
      = modifier (withoutMutating (prependMutate [Num 1])) (Num 5) []"
    by simp
  then show False
    by (simp add: eval_defs)
qed

text \<open>
  C4, amended. The non-mutating \<open>merge\<close>, \<open>set\<close>, \<open>modify\<close>, \<open>append\<close>,
  \<open>deleteProperty\<close> and \<open>at\<close> are \<open>withoutMutating\<close> of their mutating variants, and the
  modifier of \<open>withoutMutating(instruction)\<close> is \<open>produce\<close> on the input, with the recipe
  that runs the modifier of the instruction on the draft and drops what it returns. The
  non-mutating \<open>prepend\<close> is written apart: it returns \<open>items.concat(input)\<close>, which for
  an array is a new array of the items followed by the elements of the input.
\<close>

theorem nonmutating_variants_derived:
  "mergeNoMutate lodashMerge other = withoutMutating (mergeMutate lodashMerge other)
   \<and> setNoMutate p v = withoutMutating (setMutate p v)
   \<and> modifyNoMutate callback = withoutMutating (modifyMutate callback)
   \<and> appendNoMutate items = withoutMutating (appendMutate items)
   \<and> deletePropertyNoMutate k = withoutMutating (deletePropertyMutate k)
   \<and> atNoMutate p ins = withoutMutating (atMutate p ins)
   \<and> modifier (withoutMutating ins) input h =
       produce input
         (\<lambda>draft h'. case modifier ins draft h' of Inl e \<Rightarrow> Inl e | Inr (r, h'') \<Rightarrow> Inr h'') h
   \<and> modifier (prependNoMutate items) input h = Inr (concat_items items input h)
   \<and> (deref h input = Some (Arr xs) \<longrightarrow>
        modifier (prependNoMutate items) input h = Inr (Ref (length h), h @ [Arr (items @ xs)]))"
  by (simp add: mergeNoMutate_def setNoMutate_def modifyNoMutate_def appendNoMutate_def
      deletePropertyNoMutate_def atNoMutate_def withoutMutating_def prependNoMutate_def
      makeInstruction_def concat_items_def alloc_def)

theorem nonmutating_variants_derived_witness:
  "deref [Arr [Num 2]] (Ref 0) = Some (Arr [Num 2])
   \<and> modifier (prependNoMutate [Num 1]) (Ref 0) [Arr [Num 2]]
       = Inr (Ref 1, [Arr [Num 2], Arr [Num 1, Num 2]])
   \<and> modifier (appendNoMutate [Num 1]) (Ref 0) [Arr [Num 2]]
       = modifier (withoutMutating (appendMutate [Num 1])) (Ref 0) [Arr [Num 2]]"
  using nonmutating_variants_derived
    [where items = "[Num 1]" and input = "Ref 0" and h = "[Arr [Num 2]]" and xs = "[Num 2]"
       and lodashMerge = mergeFlat and other = Null and p = "Keys []" and v = Null
       and callback = setCount and k = "[]" and ins = "appendMutate [Num 1]"]
  by (simp add: deref_def concat_items_def alloc_def)

section \<open>Append and prepend on a value without the method\<close>




lemma shiftVal_Fn [simp]: "shiftVal n x = Fn f \<longleftrightarrow> x = Fn f"
  by (cases x) (simp_all add: shiftVal_def)











end
